theory Spec2Isabelle
  imports Main "HOL-Library.Word" "HOL-Library.Sublist" "HOL-Library.Monad_Syntax"
begin

section \<open>The todo list of \<^verbatim>\<open>src/App.tsx\<close>\<close>

subsection \<open>Data model\<close>

text \<open>
  A JavaScript string is a sequence of 16-bit code units. The \<^verbatim>\<open>Todo\<close> interface of
  \<^verbatim>\<open>App.tsx\<close> (lines 17 to 21) has the fields \<^verbatim>\<open>id\<close>, \<^verbatim>\<open>text\<close> and \<^verbatim>\<open>done\<close>; the
  three names are taken in Isabelle (\<open>id\<close> is the identity function, \<open>text\<close> and
  \<open>done\<close> are commands), so each field carries the prefix \<open>todo_\<close>. The field
  \<^verbatim>\<open>id\<close> is a \<^verbatim>\<open>number\<close>; the ids the component produces are array lengths plus one,
  and the data model of the specification has integer ids: \<open>todo_id\<close> is an integer,
  compared by equality as \<^verbatim>\<open>===\<close> compares such numbers.
\<close>

type_synonym code_unit = "16 word"
type_synonym jsstring = "code_unit list"

record Todo =
  todo_id :: int
  todo_text :: jsstring
  todo_done :: bool

subsection \<open>The three event handlers\<close>

text \<open>
  The add button (lines 99 to 105):
  \<^verbatim>\<open>setTodos([...todos, { id: todos.length + 1, text: inputValue, done: false }])\<close>
\<close>

definition add :: "Todo list \<Rightarrow> jsstring \<Rightarrow> Todo list" where
  "add todos inputValue =
     todos @ [\<lparr>todo_id = int (length todos) + 1, todo_text = inputValue, todo_done = False\<rparr>]"

text \<open>
  The checkbox (lines 135 to 141):
  \<^verbatim>\<open>todos.map((todo) => todo.id === item.id ? { ...todo, done: !todo.done } : todo)\<close>
\<close>

definition toggle :: "Todo list \<Rightarrow> int \<Rightarrow> Todo list" where
  "toggle todos item_id =
     map (\<lambda>todo. if todo_id todo = item_id then todo\<lparr>todo_done := \<not> todo_done todo\<rparr> else todo)
       todos"

text \<open>
  The delete button (lines 172 to 174):
  \<^verbatim>\<open>todos.filter((todo) => todo.id !== item.id)\<close>
\<close>

definition remove :: "Todo list \<Rightarrow> int \<Rightarrow> Todo list" where
  "remove todos item_id = filter (\<lambda>todo. todo_id todo \<noteq> item_id) todos"

text \<open>The id that \<open>add\<close> gave to the item it appended: the id of the last item.\<close>

definition new_id :: "Todo list \<Rightarrow> int" where
  "new_id todos = todo_id (last todos)"

text \<open>\<open>max(existing ids, default 0)\<close>, the id generation the specification asks for.\<close>

definition max_id :: "Todo list \<Rightarrow> int" where
  "max_id todos = fold max (map todo_id todos) 0"

text \<open>
  For examples: an ASCII literal as a JavaScript string, an item with such a text, and
  the collection that the clicks add "a", add "b", delete the item with id 1, add "c"
  produce from the empty list.
\<close>

definition js :: "string \<Rightarrow> jsstring" where
  "js s = map of_char s"

definition item :: "int \<Rightarrow> string \<Rightarrow> bool \<Rightarrow> Todo" where
  "item i s d = \<lparr>todo_id = i, todo_text = js s, todo_done = d\<rparr>"

definition scenario :: "Todo list" where
  "scenario = add (remove (add (add [] (js ''a'')) (js ''b'')) 1) (js ''c'')"

section \<open>Persistence\<close>

text \<open>
  \<^verbatim>\<open>localStorage\<close> maps keys to values, both strings; \<^verbatim>\<open>getItem\<close> returns \<^verbatim>\<open>null\<close> for a
  key that is not there (\<open>None\<close>), \<^verbatim>\<open>setItem\<close> overwrites. \<^verbatim>\<open>JSON.parse\<close> throws a
  \<^verbatim>\<open>SyntaxError\<close> on a text that it does not accept; nothing in \<^verbatim>\<open>App.tsx\<close> catches it.
\<close>

type_synonym storage = "jsstring \<rightharpoonup> jsstring"

datatype js_error = SyntaxError

subsection \<open>The text that \<^verbatim>\<open>JSON.stringify\<close> writes\<close>

text \<open>
  Modelled from the spec: \<^verbatim>\<open>JSON.stringify\<close> is a built-in of the JavaScript runtime, not
  code of the repository. Section 6 of the specification gives the persisted value as
  \<^verbatim>\<open>[{"id": <integer>, "text": <string>, "done": <boolean>}, ...]\<close>, field names verbatim.
  The definitions follow the ECMAScript algorithm on an array of such objects: the
  elements between brackets, separated by commas, with no white space; each object its
  members \<^verbatim>\<open>id\<close>, \<^verbatim>\<open>text\<close>, \<^verbatim>\<open>done\<close> in the order of the object literal of the add
  handler; an integer as its decimal numeral (what \<^verbatim>\<open>Number::toString\<close> gives for
  integers below \<open>10\<^sup>2\<^sup>1\<close> in magnitude); a string quoted as \<^verbatim>\<open>QuoteJSONString\<close> does:
  two-character escapes for backspace, tab, line feed, form feed, carriage return,
  the double quote and the backslash, a \<^verbatim>\<open>\u\<close> escape with four lower-case hexadecimal
  digits for every other code unit below \<open>0x20\<close> and for a surrogate that is not part of
  a pair, every other code unit as it is.
\<close>

definition hex_digit :: "nat \<Rightarrow> code_unit" where
  "hex_digit d = (if d < 10 then of_nat (48 + d) else of_nat (87 + d))"

definition UnicodeEscape :: "code_unit \<Rightarrow> jsstring" where
  "UnicodeEscape c =
     [0x5C, 0x75, hex_digit (unat c div 4096), hex_digit (unat c div 256 mod 16),
      hex_digit (unat c div 16 mod 16), hex_digit (unat c mod 16)]"

definition is_high_surrogate :: "code_unit \<Rightarrow> bool" where
  "is_high_surrogate c \<longleftrightarrow> 0xD800 \<le> c \<and> c \<le> 0xDBFF"

definition is_low_surrogate :: "code_unit \<Rightarrow> bool" where
  "is_low_surrogate c \<longleftrightarrow> 0xDC00 \<le> c \<and> c \<le> 0xDFFF"

definition quote_unit :: "code_unit \<Rightarrow> jsstring" where
  "quote_unit c =
     (if c = 0x08 then [0x5C, 0x62]
      else if c = 0x09 then [0x5C, 0x74]
      else if c = 0x0A then [0x5C, 0x6E]
      else if c = 0x0C then [0x5C, 0x66]
      else if c = 0x0D then [0x5C, 0x72]
      else if c = 0x22 then [0x5C, 0x22]
      else if c = 0x5C then [0x5C, 0x5C]
      else if c < 0x20 \<or> is_high_surrogate c \<or> is_low_surrogate c then UnicodeEscape c
      else [c])"

fun quote_units :: "jsstring \<Rightarrow> jsstring" where
  "quote_units [] = []"
| "quote_units [c] = quote_unit c"
| "quote_units (c # d # cs) =
     (if is_high_surrogate c \<and> is_low_surrogate d then c # d # quote_units cs
      else quote_unit c @ quote_units (d # cs))"

definition QuoteJSONString :: "jsstring \<Rightarrow> jsstring" where
  "QuoteJSONString s = [0x22] @ quote_units s @ [0x22]"

definition digit :: "nat \<Rightarrow> code_unit" where
  "digit d = of_nat (48 + d)"

function show_nat :: "nat \<Rightarrow> jsstring" where
  "show_nat n = (if n < 10 then [digit n] else show_nat (n div 10) @ [digit (n mod 10)])"
  by pat_completeness auto
termination
  by (relation "measure id") auto

declare show_nat.simps [simp del]

definition show_int :: "int \<Rightarrow> jsstring" where
  "show_int i = (if i < 0 then 0x2D # show_nat (nat (- i)) else show_nat (nat i))"

definition serialize_todo :: "Todo \<Rightarrow> jsstring" where
  "serialize_todo todo =
     [0x7B] @ QuoteJSONString (js ''id'') @ [0x3A] @ show_int (todo_id todo) @
     [0x2C] @ QuoteJSONString (js ''text'') @ [0x3A] @ QuoteJSONString (todo_text todo) @
     [0x2C] @ QuoteJSONString (js ''done'') @ [0x3A] @
       (if todo_done todo then js ''true'' else js ''false'') @
     [0x7D]"

fun join_comma :: "jsstring list \<Rightarrow> jsstring" where
  "join_comma [] = []"
| "join_comma [x] = x"
| "join_comma (x # y # ys) = x @ [0x2C] @ join_comma (y # ys)"

text \<open>
  Modelled from the spec: \<^verbatim>\<open>JSON.stringify\<close> of the runtime, on a list of items; the
  serialization format of sections 4.3 and 6.
\<close>

definition JSON_stringify :: "Todo list \<Rightarrow> jsstring" where
  "JSON_stringify todos = [0x5B] @ join_comma (map serialize_todo todos) @ [0x5D]"

subsection \<open>The texts that \<^verbatim>\<open>JSON.parse\<close> reads as a list of items\<close>

text \<open>
  Modelled from the spec: \<^verbatim>\<open>JSON.parse\<close> is a built-in of the JavaScript runtime, not code
  of the repository; the initializer casts its result to \<^verbatim>\<open>Todo[]\<close> without a check. The
  model reads the texts of the shape of section 6: an array of objects with the members
  \<^verbatim>\<open>id\<close> (an integer numeral), \<^verbatim>\<open>text\<close> (a string) and \<^verbatim>\<open>done\<close> (\<^verbatim>\<open>true\<close> or \<^verbatim>\<open>false\<close>),
  in this order. Tokens are those of the JSON grammar: white space (tab, line feed,
  carriage return, space) is allowed between them, a string may hold every escape of the
  grammar and no bare code unit below \<open>0x20\<close>, a numeral has no leading zero. Any other
  text is answered with \<open>SyntaxError\<close>: this is what \<^verbatim>\<open>JSON.parse\<close> does with a text that is
  not JSON, the empty text among them; JSON of another shape is outside the model.
\<close>

datatype token =
  LBracket | RBracket | LBrace | RBrace | Colon | Comma
  | TString jsstring | TNumber int | TTrue | TFalse | TNull

definition is_ws :: "code_unit \<Rightarrow> bool" where
  "is_ws c \<longleftrightarrow> c = 0x09 \<or> c = 0x0A \<or> c = 0x0D \<or> c = 0x20"

definition is_digit :: "code_unit \<Rightarrow> bool" where
  "is_digit c \<longleftrightarrow> 0x30 \<le> c \<and> c \<le> 0x39"

definition digit_value :: "code_unit \<Rightarrow> nat" where
  "digit_value c = unat c - 48"

definition hex_value :: "code_unit \<Rightarrow> nat option" where
  "hex_value c =
     (if 0x30 \<le> c \<and> c \<le> 0x39 then Some (unat c - 48)
      else if 0x61 \<le> c \<and> c \<le> 0x66 then Some (unat c - 87)
      else if 0x41 \<le> c \<and> c \<le> 0x46 then Some (unat c - 55)
      else None)"

definition hex4 :: "code_unit \<Rightarrow> code_unit \<Rightarrow> code_unit \<Rightarrow> code_unit \<Rightarrow> code_unit option" where
  "hex4 a b c d =
     (case (hex_value a, hex_value b, hex_value c, hex_value d) of
        (Some p, Some q, Some r, Some s) \<Rightarrow> Some (of_nat (((p * 16 + q) * 16 + r) * 16 + s))
      | _ \<Rightarrow> None)"

definition simple_escape :: "code_unit \<Rightarrow> code_unit option" where
  "simple_escape e =
     (if e = 0x22 then Some 0x22
      else if e = 0x5C then Some 0x5C
      else if e = 0x2F then Some 0x2F
      else if e = 0x62 then Some 0x08
      else if e = 0x66 then Some 0x0C
      else if e = 0x6E then Some 0x0A
      else if e = 0x72 then Some 0x0D
      else if e = 0x74 then Some 0x09
      else None)"

definition cons_unit ::
  "code_unit \<Rightarrow> (jsstring \<times> jsstring) option \<Rightarrow> (jsstring \<times> jsstring) option" where
  "cons_unit u r = (case r of None \<Rightarrow> None | Some (s, rest) \<Rightarrow> Some (u # s, rest))"

text \<open>
  The code units of a string after its opening quote, up to the closing quote: the
  string they denote and the text that follows.
\<close>

fun scan_string :: "jsstring \<Rightarrow> (jsstring \<times> jsstring) option" where
  "scan_string [] = None"
| "scan_string (c # cs) =
     (if c = 0x22 then Some ([], cs)
      else if c = 0x5C then
        (case cs of
           [] \<Rightarrow> None
         | e # cs' \<Rightarrow>
             if e = 0x75 then
               (case cs' of
                  h1 # h2 # h3 # h4 # cs'' \<Rightarrow>
                    (case hex4 h1 h2 h3 h4 of
                       None \<Rightarrow> None
                     | Some u \<Rightarrow> cons_unit u (scan_string cs''))
                | _ \<Rightarrow> None)
             else
               (case simple_escape e of
                  None \<Rightarrow> None
                | Some u \<Rightarrow> cons_unit u (scan_string cs')))
      else if c < 0x20 then None
      else cons_unit c (scan_string cs))"

definition scan_digits :: "jsstring \<Rightarrow> (nat \<times> jsstring) option" where
  "scan_digits s =
     (let ds = takeWhile is_digit s in
      if ds = [] then None
      else if hd ds = 0x30 \<and> tl ds \<noteq> [] then None
      else Some (foldl (\<lambda>n c. 10 * n + digit_value c) 0 ds, dropWhile is_digit s))"

text \<open>The token that starts with the code unit \<open>c\<close>, and the text after the token.\<close>

definition scan :: "code_unit \<Rightarrow> jsstring \<Rightarrow> (token \<times> jsstring) option" where
  "scan c cs =
     (if c = 0x5B then Some (LBracket, cs)
      else if c = 0x5D then Some (RBracket, cs)
      else if c = 0x7B then Some (LBrace, cs)
      else if c = 0x7D then Some (RBrace, cs)
      else if c = 0x3A then Some (Colon, cs)
      else if c = 0x2C then Some (Comma, cs)
      else if c = 0x22 then
        (case scan_string cs of None \<Rightarrow> None | Some (s, rest) \<Rightarrow> Some (TString s, rest))
      else if c = 0x2D then
        (case scan_digits cs of
           None \<Rightarrow> None
         | Some (n, rest) \<Rightarrow> Some (TNumber (- int n), rest))
      else if is_digit c then
        (case scan_digits (c # cs) of
           None \<Rightarrow> None
         | Some (n, rest) \<Rightarrow> Some (TNumber (int n), rest))
      else if c = 0x74 \<and> take 3 cs = js ''rue'' then Some (TTrue, drop 3 cs)
      else if c = 0x66 \<and> take 4 cs = js ''alse'' then Some (TFalse, drop 4 cs)
      else if c = 0x6E \<and> take 3 cs = js ''ull'' then Some (TNull, drop 3 cs)
      else None)"

text \<open>A token leaves less text than it was given: the tokenizer terminates.\<close>

lemma cons_unit_Some: "cons_unit u r = Some (s, rest) \<Longrightarrow> \<exists>s'. r = Some (s', rest)"
  by (auto simp: cons_unit_def split: option.splits)

lemma scan_string_length: "scan_string cs = Some (s, rest) \<Longrightarrow> length rest < length cs"
proof (induction cs arbitrary: s rule: scan_string.induct)
  case 1
  then show ?case by simp
next
  case (2 c cs)
  then show ?case
    by (fastforce split: if_splits list.splits option.splits dest!: cons_unit_Some)
qed

lemma scan_digits_length: "scan_digits cs = Some (n, rest) \<Longrightarrow> length rest \<le> length cs"
  by (auto simp: scan_digits_def Let_def length_dropWhile_le split: if_splits)

lemma scan_digits_length_Cons:
  "is_digit c \<Longrightarrow> scan_digits (c # cs) = Some (n, rest) \<Longrightarrow> length rest \<le> length cs"
  by (auto simp: scan_digits_def Let_def length_dropWhile_le split: if_splits)

lemma scan_length: "scan c cs = Some (t, rest) \<Longrightarrow> length rest \<le> length cs"
  unfolding scan_def
  by (auto split: if_splits option.splits
      dest: scan_string_length scan_digits_length scan_digits_length_Cons)

function tokenize :: "jsstring \<Rightarrow> token list option" where
  "tokenize [] = Some []"
| "tokenize (c # cs) =
     (if is_ws c then tokenize cs
      else
        (case scan c cs of
           None \<Rightarrow> None
         | Some (t, rest) \<Rightarrow> map_option (Cons t) (tokenize rest)))"
  by pat_completeness auto
termination
  by (relation "measure length") (auto dest: scan_length)

fun expect :: "token \<Rightarrow> token list \<Rightarrow> token list option" where
  "expect t [] = None"
| "expect t (x # xs) = (if x = t then Some xs else None)"

fun parse_number :: "token list \<Rightarrow> (int \<times> token list) option" where
  "parse_number (TNumber n # ts) = Some (n, ts)"
| "parse_number _ = None"

fun parse_string :: "token list \<Rightarrow> (jsstring \<times> token list) option" where
  "parse_string (TString s # ts) = Some (s, ts)"
| "parse_string _ = None"

fun parse_boolean :: "token list \<Rightarrow> (bool \<times> token list) option" where
  "parse_boolean (TTrue # ts) = Some (True, ts)"
| "parse_boolean (TFalse # ts) = Some (False, ts)"
| "parse_boolean _ = None"

definition parse_todo :: "token list \<Rightarrow> (Todo \<times> token list) option" where
  "parse_todo ts0 = do {
     ts1 \<leftarrow> expect LBrace ts0;
     ts2 \<leftarrow> expect (TString (js ''id'')) ts1;
     ts3 \<leftarrow> expect Colon ts2;
     (n, ts4) \<leftarrow> parse_number ts3;
     ts5 \<leftarrow> expect Comma ts4;
     ts6 \<leftarrow> expect (TString (js ''text'')) ts5;
     ts7 \<leftarrow> expect Colon ts6;
     (s, ts8) \<leftarrow> parse_string ts7;
     ts9 \<leftarrow> expect Comma ts8;
     ts10 \<leftarrow> expect (TString (js ''done'')) ts9;
     ts11 \<leftarrow> expect Colon ts10;
     (b, ts12) \<leftarrow> parse_boolean ts11;
     ts13 \<leftarrow> expect RBrace ts12;
     Some (\<lparr>todo_id = n, todo_text = s, todo_done = b\<rparr>, ts13)
   }"

text \<open>An object takes tokens away: the loop over the elements terminates.\<close>

lemma expect_length: "expect t ts = Some ts' \<Longrightarrow> length ts' < length ts"
  by (cases ts) (auto split: if_splits)

lemma parse_number_length: "parse_number ts = Some (n, ts') \<Longrightarrow> length ts' < length ts"
  by (erule parse_number.elims) auto

lemma parse_string_length: "parse_string ts = Some (s, ts') \<Longrightarrow> length ts' < length ts"
  by (erule parse_string.elims) auto

lemma parse_boolean_length: "parse_boolean ts = Some (b, ts') \<Longrightarrow> length ts' < length ts"
  by (erule parse_boolean.elims) auto

lemma parse_todo_length: "parse_todo ts = Some (todo, ts') \<Longrightarrow> length ts' < length ts"
  unfolding parse_todo_def
  by (auto simp: bind_eq_Some_conv
      dest!: expect_length parse_number_length parse_string_length parse_boolean_length)

function parse_elements :: "token list \<Rightarrow> Todo list option" where
  "parse_elements ts =
     (case parse_todo ts of
        None \<Rightarrow> None
      | Some (todo, ts') \<Rightarrow>
          (case ts' of
             [] \<Rightarrow> None
           | t # ts'' \<Rightarrow>
               if t = Comma then map_option (Cons todo) (parse_elements ts'')
               else if t = RBracket \<and> ts'' = [] then Some [todo]
               else None))"
  by pat_completeness auto
termination
  by (relation "measure length") (auto dest: parse_todo_length)

declare parse_elements.simps [simp del]

fun parse_array :: "token list \<Rightarrow> Todo list option" where
  "parse_array [] = None"
| "parse_array (t # ts) =
     (if t = LBracket then (if ts = [RBracket] then Some [] else parse_elements ts) else None)"

text \<open>
  Modelled from the spec: \<^verbatim>\<open>JSON.parse\<close> of the runtime with the cast to \<^verbatim>\<open>Todo[]\<close>, on the
  texts of the format of section 6; \<open>Inl SyntaxError\<close> is the exception it throws.
\<close>

definition JSON_parse :: "jsstring \<Rightarrow> js_error + Todo list" where
  "JSON_parse text =
     (case tokenize text of
        None \<Rightarrow> Inl SyntaxError
      | Some ts \<Rightarrow>
          (case parse_array ts of None \<Rightarrow> Inl SyntaxError | Some todos \<Rightarrow> Inr todos))"

subsection \<open>Reading the slot at startup, writing it after a change\<close>

text \<open>
  The initializer of the state (lines 38 to 44):
  \<^verbatim>\<open>const todos = localStorage.getItem('todos')\<close>,
  \<^verbatim>\<open>if (todos) { return JSON.parse(todos) as Todo[] }\<close>, \<^verbatim>\<open>return []\<close>.
  The condition is the truthiness of a value that is \<^verbatim>\<open>null\<close> or a string: it is false
  for \<^verbatim>\<open>null\<close> and for the empty string.
\<close>

definition initial_todos :: "storage \<Rightarrow> js_error + Todo list" where
  "initial_todos localStorage =
     (case localStorage (js ''todos'') of
        None \<Rightarrow> Inr []
      | Some todos \<Rightarrow> if todos \<noteq> [] then JSON_parse todos else Inr [])"

text \<open>
  The effect (lines 67 to 69): \<^verbatim>\<open>localStorage.setItem('todos', JSON.stringify(todos))\<close>.
\<close>

definition persist :: "storage \<Rightarrow> Todo list \<Rightarrow> storage" where
  "persist localStorage todos = localStorage(js ''todos'' \<mapsto> JSON_stringify todos)"

text \<open>
  The same two pieces of code with their accesses to \<^verbatim>\<open>localStorage\<close> on record: the
  storage carries the list of the calls made on it, oldest first. \<^verbatim>\<open>getItem\<close> adds one
  entry and leaves the contents as they are, \<^verbatim>\<open>setItem\<close> adds one entry and overwrites
  the key. The initializer makes the one call of line 39, the effect the one call of
  line 68. The initializer is the function given to \<^verbatim>\<open>useState\<close>, which runs it at the
  first render of the component (comment of lines 27 to 31).
\<close>

datatype access = GetItem jsstring | SetItem jsstring jsstring

record store =
  items :: storage
  accesses :: "access list"

definition getItem :: "store \<Rightarrow> jsstring \<Rightarrow> jsstring option \<times> store" where
  "getItem localStorage key =
     (items localStorage key,
      localStorage\<lparr>accesses := accesses localStorage @ [GetItem key]\<rparr>)"

definition setItem :: "store \<Rightarrow> jsstring \<Rightarrow> jsstring \<Rightarrow> store" where
  "setItem localStorage key v =
     localStorage\<lparr>items := (items localStorage)(key \<mapsto> v),
       accesses := accesses localStorage @ [SetItem key v]\<rparr>"

definition useState_initializer :: "store \<Rightarrow> (js_error + Todo list) \<times> store" where
  "useState_initializer localStorage =
     (case getItem localStorage (js ''todos'') of
        (todos, localStorage') \<Rightarrow>
          (case todos of
             None \<Rightarrow> (Inr [], localStorage')
           | Some text \<Rightarrow>
               if text \<noteq> [] then (JSON_parse text, localStorage') else (Inr [], localStorage')))"

definition useEffect_persist :: "store \<Rightarrow> Todo list \<Rightarrow> store" where
  "useEffect_persist localStorage todos =
     setItem localStorage (js ''todos'') (JSON_stringify todos)"

text \<open>The keys read, in the order of the calls of \<^verbatim>\<open>getItem\<close>.\<close>

fun reads :: "access list \<Rightarrow> jsstring list" where
  "reads [] = []"
| "reads (GetItem key # log) = key # reads log"
| "reads (SetItem key v # log) = reads log"

text \<open>The tokens of the text that \<open>JSON_stringify\<close> writes.\<close>

definition todo_tokens :: "Todo \<Rightarrow> token list" where
  "todo_tokens todo =
     [LBrace, TString (js ''id''), Colon, TNumber (todo_id todo), Comma,
      TString (js ''text''), Colon, TString (todo_text todo), Comma,
      TString (js ''done''), Colon, (if todo_done todo then TTrue else TFalse), RBrace]"

fun todos_tokens :: "Todo list \<Rightarrow> token list" where
  "todos_tokens [] = []"
| "todos_tokens [x] = todo_tokens x"
| "todos_tokens (x # y # ys) = todo_tokens x @ [Comma] @ todos_tokens (y # ys)"

section \<open>Properties of the handlers\<close>

subsection \<open>Auxiliary facts\<close>

lemma item_sel [simp]:
  "todo_id (item i s d) = i" "todo_text (item i s d) = js s" "todo_done (item i s d) = d"
  by (simp_all add: item_def)

lemma item_done_update [simp]: "(item i s d)\<lparr>todo_done := e\<rparr> = item i s e"
  by (simp add: item_def)

lemma item_eq_iff [simp]:
  "item i s d = item i' s' d' \<longleftrightarrow> i = i' \<and> js s = js s' \<and> d = d'"
  by (auto simp add: item_def)

lemma scenario_eq: "scenario = [item 2 ''b'' False, item 2 ''c'' False]"
  by (simp add: scenario_def add_def remove_def item_def)

text \<open>
  The first scenario of section 8 of the specification: add "buy milk" to the empty
  collection, toggle 1, remove 1.
\<close>

lemma buy_milk_scenario:
  "add [] (js ''buy milk'') = [item 1 ''buy milk'' False]"
  "toggle [item 1 ''buy milk'' False] 1 = [item 1 ''buy milk'' True]"
  "remove [item 1 ''buy milk'' True] 1 = []"
  by (simp_all add: add_def toggle_def remove_def item_def)

lemma add_length: "length (add c t) = Suc (length c)"
  by (simp add: add_def)

lemma add_butlast: "butlast (add c t) = c"
  by (simp add: add_def)

lemma add_last:
  "last (add c t) = \<lparr>todo_id = int (length c) + 1, todo_text = t, todo_done = False\<rparr>"
  by (simp add: add_def)

lemma add_new_id: "new_id (add c t) = int (length c) + 1"
  by (simp add: new_id_def add_last)

lemma add_ids: "map todo_id (add c t) = map todo_id c @ [int (length c) + 1]"
  by (simp add: add_def)

lemma toggle_length: "length (toggle c k) = length c"
  by (simp add: toggle_def)

lemma toggle_nth:
  "i < length c \<Longrightarrow>
   toggle c k ! i =
     (if todo_id (c ! i) = k then (c ! i)\<lparr>todo_done := \<not> todo_done (c ! i)\<rparr> else c ! i)"
  by (simp add: toggle_def)

lemma toggle_absent: "k \<notin> todo_id ` set c \<Longrightarrow> toggle c k = c"
  by (auto simp add: toggle_def intro!: map_idI)

lemma toggle_ids: "map todo_id (toggle c k) = map todo_id c"
  by (simp add: toggle_def)

lemma toggle_at_unique:
  assumes d: "distinct (map todo_id c)" and i: "i < length c" and k: "todo_id (c ! i) = k"
  shows "toggle c k = c[i := (c ! i)\<lparr>todo_done := \<not> todo_done (c ! i)\<rparr>]"
proof (rule nth_equalityI)
  show "length (toggle c k) = length (c[i := (c ! i)\<lparr>todo_done := \<not> todo_done (c ! i)\<rparr>])"
    by (simp add: toggle_length)
next
  fix j assume "j < length (toggle c k)"
  then have j: "j < length c" by (simp add: toggle_length)
  show "toggle c k ! j = c[i := (c ! i)\<lparr>todo_done := \<not> todo_done (c ! i)\<rparr>] ! j"
  proof (cases "j = i")
    case True
    with i k show ?thesis by (simp add: toggle_nth)
  next
    case False
    with d i j have "map todo_id c ! j \<noteq> map todo_id c ! i"
      by (simp add: nth_eq_iff_index_eq del: nth_map)
    with i j k have "todo_id (c ! j) \<noteq> k" by simp
    with False j show ?thesis by (simp add: toggle_nth)
  qed
qed

lemma remove_absent: "k \<notin> todo_id ` set c \<Longrightarrow> remove c k = c"
  by (auto simp add: remove_def filter_id_conv)

lemma remove_subseq: "subseq (remove c k) c"
  by (simp add: remove_def)

lemma remove_count:
  "count_list (remove c k) t = (if todo_id t = k then 0 else count_list c t)"
  by (induction c) (auto simp: remove_def)

lemma remove_ids: "k \<notin> todo_id ` set (remove c k)"
  by (auto simp: remove_def)

lemma remove_length: "length (remove c k) + count_list (map todo_id c) k = length c"
  by (induction c) (simp_all add: remove_def)

lemma remove_at_unique:
  "distinct (map todo_id c) \<Longrightarrow> i < length c \<Longrightarrow> todo_id (c ! i) = k \<Longrightarrow>
   remove c k = take i c @ drop (Suc i) c"
proof (induction c arbitrary: i)
  case Nil
  then show ?case by simp
next
  case (Cons a c)
  show ?case
  proof (cases i)
    case 0
    with Cons.prems have "todo_id a = k" "k \<notin> todo_id ` set c" by auto
    with 0 show ?thesis using remove_absent [of k c] by (simp add: remove_def)
  next
    case (Suc j)
    with Cons.prems have "todo_id a \<noteq> k" by auto
    with Suc Cons show ?thesis by (simp add: remove_def)
  qed
qed

text \<open>
  Where the id that \<open>add\<close> computes is not yet in the collection, deleting the new
  item gives the collection back.
\<close>

lemma add_then_remove_fresh:
  assumes "int (length c) + 1 \<notin> todo_id ` set c"
  shows "remove (add c t) (new_id (add c t)) = c"
proof -
  from assms have "\<forall>x\<in>set c. todo_id x \<noteq> int (length c) + 1"
    by force
  then have "remove (add c t) (int (length c) + 1) = c"
    by (simp add: add_def remove_def filter_id_conv)
  then show ?thesis
    by (simp only: add_new_id)
qed

text \<open>
  A collection grown from the empty one by the add button alone has the ids
  \<open>1, 2, \<dots>, n\<close> in this order; there \<open>length + 1\<close> and \<open>max + 1\<close> agree.
\<close>

lemma adds_only_length: "length (foldl add [] ts) = length ts"
  by (induction ts rule: rev_induct) (simp_all add: add_length)

lemma adds_only_ids: "map todo_id (foldl add [] ts) = map int [1..<Suc (length ts)]"
proof (induction ts rule: rev_induct)
  case Nil
  show ?case by simp
next
  case (snoc t ts)
  then show ?case by (simp add: add_ids adds_only_length)
qed

lemma fold_max_upto: "fold max (map int [1..<Suc n]) 0 = int n"
  by (induction n) (simp_all del: upt_Suc add: upt_Suc_append)

lemma adds_only_max_id: "max_id (foldl add [] ts) = int (length (foldl add [] ts))"
  by (simp only: max_id_def adds_only_ids fold_max_upto adds_only_length)

subsection \<open>The add button\<close>

text \<open>
  Claim C1: for every collection and every text, add returns the input collection with
  one new item appended at the end, whose done flag is false and whose id is
  \<open>max(existing ids, default 0) + 1\<close>.

  The handler computes the id as \<open>todos.length + 1\<close>. On the collection that holds the
  single item with id 2 (what is left of add "a", add "b" after the item with id 1 is
  deleted) the new item gets the id 2, where the claim asks for 3.
\<close>

theorem add_id_is_length_plus_one:
  "remove (add (add [] (js ''a'')) (js ''b'')) 1 = [item 2 ''b'' False] \<and>
   add [item 2 ''b'' False] (js ''c'') = [item 2 ''b'' False, item 2 ''c'' False] \<and>
   new_id (add [item 2 ''b'' False] (js ''c'')) = 2 \<and>
   max_id [item 2 ''b'' False] + 1 = 3"
  by (simp add: add_def remove_def max_id_def new_id_def item_def)

text \<open>
  Claim C4: from the empty collection, add "a", add "b", remove 1, add "c" give a
  collection in which no two items share an id.

  The handlers give two items that both have the id 2.
\<close>

theorem scenario_ids_collide:
  "scenario = [item 2 ''b'' False, item 2 ''c'' False] \<and>
   map todo_id scenario = [2, 2] \<and>
   \<not> distinct (map todo_id scenario)"
  by (simp add: scenario_eq)

text \<open>
  Claim C5: for every collection and every text, add followed by remove of the id given
  to the new item returns the collection as it was before the add.

  On the collection that holds the single item with id 2, the new item gets the id 2 as
  well, and the delete button takes both away.
\<close>

theorem add_then_remove_loses_item:
  "add [item 2 ''b'' False] (js ''c'') = [item 2 ''b'' False, item 2 ''c'' False] \<and>
   new_id (add [item 2 ''b'' False] (js ''c'')) = 2 \<and>
   remove (add [item 2 ''b'' False] (js ''c'')) (new_id (add [item 2 ''b'' False] (js ''c'')))
     = [] \<and>
   remove (add [item 2 ''b'' False] (js ''c'')) (new_id (add [item 2 ''b'' False] (js ''c'')))
     \<noteq> [item 2 ''b'' False]"
  by (simp add: add_def remove_def new_id_def item_def)

subsection \<open>The checkbox\<close>

text \<open>
  Claim C2: for every collection and every id, toggle returns the collection unchanged
  when no item has the id; when an item has it, the result is the input except that this
  item's done flag is negated, every other item and the order being as before.

  On the collection that add "a", add "b", remove 1, add "c" leave, both items have the
  id 2, and the checkbox of either row negates the done flag of both: the result is
  neither the input with its first item changed nor the input with its second item
  changed.
\<close>

theorem toggle_changes_other_item:
  "scenario = [item 2 ''b'' False, item 2 ''c'' False] \<and>
   toggle scenario 2 = [item 2 ''b'' True, item 2 ''c'' True] \<and>
   toggle scenario 2 \<noteq> scenario[0 := (scenario ! 0)\<lparr>todo_done := \<not> todo_done (scenario ! 0)\<rparr>] \<and>
   toggle scenario 2 \<noteq> scenario[1 := (scenario ! 1)\<lparr>todo_done := \<not> todo_done (scenario ! 1)\<rparr>]"
  by (simp add: scenario_eq toggle_def)

text \<open>
  What holds of the checkbox on every collection: the result has the length of the
  input; at every position it holds the input's item, with the done flag negated exactly
  where the id matches; it is the input when no item has the id. Where the ids are
  unique, the result is the input with the one position of that id replaced.
\<close>

lemma toggle_spec:
  "(k \<notin> todo_id ` set c \<longrightarrow> toggle c k = c) \<and>
   length (toggle c k) = length c \<and>
   (\<forall>i<length c.
      toggle c k ! i =
        (if todo_id (c ! i) = k then (c ! i)\<lparr>todo_done := \<not> todo_done (c ! i)\<rparr> else c ! i)) \<and>
   (distinct (map todo_id c) \<longrightarrow>
      (\<forall>i<length c. todo_id (c ! i) = k \<longrightarrow>
         toggle c k = c[i := (c ! i)\<lparr>todo_done := \<not> todo_done (c ! i)\<rparr>]))"
  by (simp add: toggle_absent toggle_length toggle_nth toggle_at_unique)

lemma toggle_spec_example:
  "7 \<notin> todo_id ` set [item 1 ''a'' False, item 2 ''b'' False] \<and>
   toggle [item 1 ''a'' False, item 2 ''b'' False] 7 = [item 1 ''a'' False, item 2 ''b'' False] \<and>
   distinct (map todo_id [item 1 ''a'' False, item 2 ''b'' False]) \<and>
   (1::nat) < length [item 1 ''a'' False, item 2 ''b'' False] \<and>
   todo_id ([item 1 ''a'' False, item 2 ''b'' False] ! 1) = 2 \<and>
   toggle [item 1 ''a'' False, item 2 ''b'' False] 2 = [item 1 ''a'' False, item 2 ''b'' True] \<and>
   toggle [item 1 ''a'' False, item 2 ''b'' False] 2 ! 1 = item 2 ''b'' True"
proof -
  let ?c = "[item 1 ''a'' False, item 2 ''b'' False]"
  have a: "7 \<notin> todo_id ` set ?c" by simp
  have d: "distinct (map todo_id ?c)" by simp
  have l: "(1::nat) < length ?c" by simp
  have k: "todo_id (?c ! 1) = 2" by simp
  from toggle_spec [of 7 ?c] a have r1: "toggle ?c 7 = ?c"
    by blast
  from toggle_spec [of 2 ?c] l have r2: "toggle ?c 2 ! 1 = item 2 ''b'' True"
    by simp
  from toggle_spec [of 2 ?c] d l k
  have "toggle ?c 2 = ?c[1 := (?c ! 1)\<lparr>todo_done := \<not> todo_done (?c ! 1)\<rparr>]"
    by blast
  then have r3: "toggle ?c 2 = [item 1 ''a'' False, item 2 ''b'' True]"
    by simp
  from a d l k r1 r2 r3 show ?thesis
    by (simp only: simp_thms)
qed

text \<open>
  Claim C6: for every collection and every id, present or not, toggle applied twice
  returns the original collection.
\<close>

theorem toggle_twice: "toggle (toggle c k) k = c"
  by (simp add: toggle_def map_idI)

subsection \<open>The delete button\<close>

text \<open>
  Claim C3: for every collection and every id, remove returns all items except the one
  whose id matches, in their order; when no item matches, it returns the collection
  unchanged.

  On the collection that add "a", add "b", remove 1, add "c" leave, both items have the
  id 2, and the delete button of either row removes both: the result is empty, neither
  the input without its first item nor the input without its second item.
\<close>

theorem remove_deletes_other_item:
  "scenario = [item 2 ''b'' False, item 2 ''c'' False] \<and>
   remove scenario 2 = [] \<and>
   remove scenario 2 \<noteq> take 0 scenario @ drop (Suc 0) scenario \<and>
   remove scenario 2 \<noteq> take 1 scenario @ drop (Suc 1) scenario"
  by (simp add: scenario_eq remove_def)

text \<open>
  What holds of the delete button on every collection: the result is a subsequence of
  the input, it holds every item of another id as often as the input does and no item of
  the given id; it is the input when no item has the id. Where the ids are unique, it is
  the input without the one position of that id.
\<close>

lemma remove_spec:
  "(k \<notin> todo_id ` set c \<longrightarrow> remove c k = c) \<and>
   subseq (remove c k) c \<and>
   (\<forall>t. count_list (remove c k) t = (if todo_id t = k then 0 else count_list c t)) \<and>
   (distinct (map todo_id c) \<longrightarrow>
      (\<forall>i<length c. todo_id (c ! i) = k \<longrightarrow> remove c k = take i c @ drop (Suc i) c))"
  by (simp add: remove_absent remove_subseq remove_count remove_at_unique)

lemma remove_spec_example:
  "7 \<notin> todo_id ` set [item 1 ''a'' False, item 2 ''b'' True, item 3 ''c'' False] \<and>
   remove [item 1 ''a'' False, item 2 ''b'' True, item 3 ''c'' False] 7
     = [item 1 ''a'' False, item 2 ''b'' True, item 3 ''c'' False] \<and>
   distinct (map todo_id [item 1 ''a'' False, item 2 ''b'' True, item 3 ''c'' False]) \<and>
   (1::nat) < length [item 1 ''a'' False, item 2 ''b'' True, item 3 ''c'' False] \<and>
   todo_id ([item 1 ''a'' False, item 2 ''b'' True, item 3 ''c'' False] ! 1) = 2 \<and>
   remove [item 1 ''a'' False, item 2 ''b'' True, item 3 ''c'' False] 2
     = [item 1 ''a'' False, item 3 ''c'' False]"
proof -
  let ?c = "[item 1 ''a'' False, item 2 ''b'' True, item 3 ''c'' False]"
  have a: "7 \<notin> todo_id ` set ?c" by simp
  have d: "distinct (map todo_id ?c)" by simp
  have l: "(1::nat) < length ?c" by simp
  have k: "todo_id (?c ! 1) = 2" by simp
  from remove_spec [of 7 ?c] a have r1: "remove ?c 7 = ?c"
    by blast
  from remove_spec [of 2 ?c] d l k have "remove ?c 2 = take 1 ?c @ drop (Suc 1) ?c"
    by blast
  then have r2: "remove ?c 2 = [item 1 ''a'' False, item 3 ''c'' False]"
    by simp
  from a d l k r1 r2 show ?thesis
    by (simp only: simp_thms)
qed

subsection \<open>All three handlers\<close>

text \<open>
  Claim C9: none of add, toggle and remove throws; each returns a collection for every
  collection and argument.

  The handlers are built from the array spread, \<^verbatim>\<open>map\<close> and \<^verbatim>\<open>filter\<close>, which have no
  failing branch on an array of items, so the model has none either: each handler yields
  a collection, one longer than, as long as, and at most as long as the input.
\<close>

theorem handlers_total:
  "(\<exists>c'. add c t = c' \<and> length c' = length c + 1) \<and>
   (\<exists>c'. toggle c k = c' \<and> length c' = length c) \<and>
   (\<exists>c'. remove c k = c' \<and> length c' \<le> length c)"
  by (simp add: add_length toggle_length remove_def)

text \<open>
  Claim C10: when several items of the collection share an id, toggle with that id
  negates the done flag of every one of them, and remove with that id deletes every one
  of them.

  The result of remove is shorter than the input by the number of items of that id.
\<close>

theorem duplicate_ids_all_affected:
  "(\<forall>i<length c. todo_id (c ! i) = k \<longrightarrow>
      toggle c k ! i = (c ! i)\<lparr>todo_done := \<not> todo_done (c ! i)\<rparr>) \<and>
   (\<forall>t\<in>set (remove c k). todo_id t \<noteq> k) \<and>
   length (remove c k) = length c - count_list (map todo_id c) k"
proof (intro conjI)
  show "\<forall>i<length c. todo_id (c ! i) = k \<longrightarrow>
      toggle c k ! i = (c ! i)\<lparr>todo_done := \<not> todo_done (c ! i)\<rparr>"
    by (simp add: toggle_nth)
  show "\<forall>t\<in>set (remove c k). todo_id t \<noteq> k"
    by (simp add: remove_def)
  show "length (remove c k) = length c - count_list (map todo_id c) k"
    using remove_length [of c k] by arith
qed

theorem duplicate_ids_all_affected_witness:
  "length scenario = 2 \<and> todo_id (scenario ! 0) = 2 \<and> todo_id (scenario ! 1) = 2 \<and>
   toggle scenario 2 ! 0 = item 2 ''b'' True \<and>
   toggle scenario 2 ! 1 = item 2 ''c'' True \<and>
   remove scenario 2 = []"
proof -
  have s: "scenario = [item 2 ''b'' False, item 2 ''c'' False]"
    by (rule scenario_eq)
  have l: "length scenario = 2"
    and k0: "todo_id (scenario ! 0) = 2" and k1: "todo_id (scenario ! 1) = 2"
    and n: "count_list (map todo_id scenario) 2 = 2"
    by (simp_all add: s)
  note th = duplicate_ids_all_affected [of scenario 2]
  from th have a: "\<forall>i<length scenario. todo_id (scenario ! i) = 2 \<longrightarrow>
      toggle scenario 2 ! i = (scenario ! i)\<lparr>todo_done := \<not> todo_done (scenario ! i)\<rparr>"
    by (rule conjunct1)
  from th
  have b: "length (remove scenario 2) = length scenario - count_list (map todo_id scenario) 2"
    by (elim conjE)
  from a l k0
  have "toggle scenario 2 ! 0 = (scenario ! 0)\<lparr>todo_done := \<not> todo_done (scenario ! 0)\<rparr>"
    by simp
  then have t0: "toggle scenario 2 ! 0 = item 2 ''b'' True"
    by (simp add: s)
  from a l k1
  have "toggle scenario 2 ! 1 = (scenario ! 1)\<lparr>todo_done := \<not> todo_done (scenario ! 1)\<rparr>"
    by simp
  then have t1: "toggle scenario 2 ! 1 = item 2 ''c'' True"
    by (simp add: s)
  from b l n have r: "remove scenario 2 = []"
    by simp
  from l k0 k1 t0 t1 r show ?thesis
    by (simp only: simp_thms)
qed

section \<open>Properties of the persistence\<close>

subsection \<open>A quoted string is read back\<close>

lemma hex_value_hex_digit: "d < 16 \<Longrightarrow> hex_value (hex_digit d) = Some d"
proof -
  assume "d < 16"
  then have "d = 0 \<or> d = 1 \<or> d = 2 \<or> d = 3 \<or> d = 4 \<or> d = 5 \<or> d = 6 \<or> d = 7 \<or> d = 8 \<or> d = 9
     \<or> d = 10 \<or> d = 11 \<or> d = 12 \<or> d = 13 \<or> d = 14 \<or> d = 15"
    by arith
  then show ?thesis
    by (elim disjE) (simp_all add: hex_value_def hex_digit_def)
qed

lemma nibbles:
  fixes n :: nat
  shows "((n div 4096 * 16 + n div 256 mod 16) * 16 + n div 16 mod 16) * 16 + n mod 16 = n"
proof -
  have a: "n div 4096 = n div 256 div 16" by (simp add: div_mult2_eq)
  have b: "n div 256 = n div 16 div 16" by (simp add: div_mult2_eq)
  have "n div 4096 * 16 + n div 256 mod 16 = n div 256"
    by (simp only: a div_mult_mod_eq)
  moreover have "n div 256 * 16 + n div 16 mod 16 = n div 16"
    by (simp only: b div_mult_mod_eq)
  moreover have "n div 16 * 16 + n mod 16 = n"
    by (simp only: div_mult_mod_eq)
  ultimately show ?thesis by simp
qed

lemma hex4_UnicodeEscape:
  "hex4 (hex_digit (unat c div 4096)) (hex_digit (unat c div 256 mod 16))
      (hex_digit (unat c div 16 mod 16)) (hex_digit (unat c mod 16)) = Some c"
proof -
  have "unat c < 65536"
    using unsigned_less [of c, where ?'a = nat] by simp
  then have "unat c div 4096 < 16"
    by simp
  then have "hex4 (hex_digit (unat c div 4096)) (hex_digit (unat c div 256 mod 16))
      (hex_digit (unat c div 16 mod 16)) (hex_digit (unat c mod 16))
    = Some (of_nat (((unat c div 4096 * 16 + unat c div 256 mod 16) * 16
        + unat c div 16 mod 16) * 16 + unat c mod 16))"
    by (simp add: hex4_def hex_value_hex_digit del: of_nat_add of_nat_mult)
  also have "\<dots> = Some (of_nat (unat c))"
    by (simp only: nibbles)
  also have "\<dots> = Some c"
    by simp
  finally show ?thesis .
qed

lemma scan_string_quote_unit: "scan_string (quote_unit c @ r) = cons_unit c (scan_string r)"
  by (simp add: quote_unit_def UnicodeEscape_def simple_escape_def hex4_UnicodeEscape)

lemma surrogate_plain:
  "is_high_surrogate c \<or> is_low_surrogate c \<Longrightarrow> \<not> c < 0x20 \<and> c \<noteq> 0x22 \<and> c \<noteq> 0x5C"
  by (auto simp: is_high_surrogate_def is_low_surrogate_def word_le_nat_alt word_less_nat_alt)

lemma scan_string_surrogate:
  "is_high_surrogate c \<or> is_low_surrogate c \<Longrightarrow>
   scan_string (c # r) = cons_unit c (scan_string r)"
  using surrogate_plain [of c] by simp

lemma scan_string_quote_units: "scan_string (quote_units s @ 0x22 # r) = Some (s, r)"
proof (induction s rule: quote_units.induct)
  case 1
  show ?case by simp
next
  case (2 c)
  show ?case by (simp add: scan_string_quote_unit cons_unit_def)
next
  case (3 c d cs)
  show ?case
  proof (cases "is_high_surrogate c \<and> is_low_surrogate d")
    case True
    then have "scan_string (quote_units (c # d # cs) @ 0x22 # r)
      = cons_unit c (cons_unit d (scan_string (quote_units cs @ 0x22 # r)))"
      by (simp add: scan_string_surrogate del: scan_string.simps)
    with True 3 show ?thesis by (simp add: cons_unit_def)
  next
    case False
    then have "quote_units (c # d # cs) = quote_unit c @ quote_units (d # cs)"
      by (cases "is_high_surrogate c") simp_all
    then have "scan_string (quote_units (c # d # cs) @ 0x22 # r)
      = cons_unit c (scan_string (quote_units (d # cs) @ 0x22 # r))"
      by (simp add: scan_string_quote_unit del: scan_string.simps quote_units.simps)
    with False 3 show ?thesis by (simp add: cons_unit_def)
  qed
qed

subsection \<open>A decimal numeral is read back\<close>

lemma digit_props:
  assumes "d < 10"
  shows "is_digit (digit d)" and "digit_value (digit d) = d"
    and "digit d = 0x30 \<longleftrightarrow> d = 0"
proof -
  from assms
  have "d = 0 \<or> d = 1 \<or> d = 2 \<or> d = 3 \<or> d = 4 \<or> d = 5 \<or> d = 6 \<or> d = 7 \<or> d = 8 \<or> d = 9"
    by arith
  then show "is_digit (digit d)" and "digit_value (digit d) = d"
    and "digit d = 0x30 \<longleftrightarrow> d = 0"
    by (elim disjE; simp add: is_digit_def digit_value_def digit_def)+
qed

lemma show_nat_digits: "\<forall>c\<in>set (show_nat n). is_digit c"
proof (induction n rule: show_nat.induct)
  case (1 n)
  show ?case
  proof (cases "n < 10")
    case True
    then show ?thesis by (subst show_nat.simps) (simp add: digit_props)
  next
    case False
    with 1 show ?thesis by (subst show_nat.simps) (simp add: digit_props)
  qed
qed

lemma show_nat_not_Nil: "show_nat n \<noteq> []"
  by (subst show_nat.simps) simp

lemma show_nat_value: "foldl (\<lambda>n c. 10 * n + digit_value c) 0 (show_nat n) = n"
proof (induction n rule: show_nat.induct)
  case (1 n)
  show ?case
  proof (cases "n < 10")
    case True
    then show ?thesis by (subst show_nat.simps) (simp add: digit_props)
  next
    case False
    with 1 show ?thesis by (subst show_nat.simps) (simp add: digit_props)
  qed
qed

lemma show_nat_leading: "hd (show_nat n) = 0x30 \<Longrightarrow> show_nat n = [0x30]"
proof (induction n rule: show_nat.induct)
  case (1 n)
  show ?case
  proof (cases "n < 10")
    case True
    with 1(2) show ?thesis
      by (subst show_nat.simps, subst (asm) show_nat.simps) simp
  next
    case False
    then have e: "show_nat n = show_nat (n div 10) @ [digit (n mod 10)]"
      by (subst show_nat.simps) simp
    with 1(2) have "hd (show_nat (n div 10)) = 0x30"
      by (simp add: show_nat_not_Nil)
    with 1(1) False have "show_nat (n div 10) = [0x30]"
      by simp
    moreover have "show_nat (n div 10) \<noteq> [0x30]"
    proof
      assume "show_nat (n div 10) = [0x30]"
      then have "foldl (\<lambda>n c. 10 * n + digit_value c) 0 (show_nat (n div 10)) = 0"
        by (simp add: digit_value_def)
      with False show False
        by (simp add: show_nat_value)
    qed
    ultimately show ?thesis by simp
  qed
qed

lemma scan_digits_show_nat:
  assumes "r = [] \<or> \<not> is_digit (hd r)"
  shows "scan_digits (show_nat n @ r) = Some (n, r)"
proof -
  from assms have t: "takeWhile is_digit r = []" and d: "dropWhile is_digit r = r"
    by (cases r; simp)+
  have tw: "takeWhile is_digit (show_nat n @ r) = show_nat n"
    using show_nat_digits [of n] t by simp
  have dw: "dropWhile is_digit (show_nat n @ r) = r"
    using show_nat_digits [of n] d by simp
  have "\<not> (hd (show_nat n) = 0x30 \<and> tl (show_nat n) \<noteq> [])"
    using show_nat_leading [of n] by auto
  then show ?thesis
    by (simp add: scan_digits_def Let_def tw dw show_nat_not_Nil show_nat_value)
qed

subsection \<open>The written text is read back\<close>

lemma tokenize_punct:
  "tokenize (0x5B # r) = map_option (Cons LBracket) (tokenize r)"
  "tokenize (0x5D # r) = map_option (Cons RBracket) (tokenize r)"
  "tokenize (0x7B # r) = map_option (Cons LBrace) (tokenize r)"
  "tokenize (0x7D # r) = map_option (Cons RBrace) (tokenize r)"
  "tokenize (0x3A # r) = map_option (Cons Colon) (tokenize r)"
  "tokenize (0x2C # r) = map_option (Cons Comma) (tokenize r)"
  by (simp_all add: is_ws_def scan_def)

lemma tokenize_QuoteJSONString:
  "tokenize (QuoteJSONString s @ r) = map_option (Cons (TString s)) (tokenize r)"
  by (simp add: QuoteJSONString_def is_ws_def scan_def scan_string_quote_units
      del: scan_string.simps)

lemma tokenize_boolean:
  "tokenize ((if b then js ''true'' else js ''false'') @ r)
     = map_option (Cons (if b then TTrue else TFalse)) (tokenize r)"
  by (simp add: js_def is_ws_def scan_def is_digit_def)

lemma digit_not_punct:
  "is_digit c \<Longrightarrow>
   \<not> is_ws c \<and> c \<noteq> 0x5B \<and> c \<noteq> 0x5D \<and> c \<noteq> 0x7B \<and> c \<noteq> 0x7D \<and> c \<noteq> 0x3A
     \<and> c \<noteq> 0x2C \<and> c \<noteq> 0x22 \<and> c \<noteq> 0x2D"
  by (auto simp: is_digit_def is_ws_def)

lemma tokenize_show_nat:
  assumes "r = [] \<or> \<not> is_digit (hd r)"
  shows "tokenize (show_nat n @ r) = map_option (Cons (TNumber (int n))) (tokenize r)"
proof -
  obtain c cs where e: "show_nat n = c # cs"
    using show_nat_not_Nil [of n] by (cases "show_nat n") auto
  with show_nat_digits [of n] have "is_digit c"
    by simp
  moreover have "scan_digits (c # cs @ r) = Some (n, r)"
    using scan_digits_show_nat [OF assms, of n] e by simp
  ultimately show ?thesis
    using digit_not_punct [of c] by (simp add: e scan_def)
qed

lemma tokenize_show_int:
  assumes "r = [] \<or> \<not> is_digit (hd r)"
  shows "tokenize (show_int i @ r) = map_option (Cons (TNumber i)) (tokenize r)"
proof (cases "i < 0")
  case True
  then show ?thesis
    by (simp add: show_int_def is_ws_def scan_def scan_digits_show_nat [OF assms])
next
  case False
  then show ?thesis
    by (simp add: show_int_def tokenize_show_nat [OF assms])
qed

lemma tokenize_serialize_todo:
  "tokenize (serialize_todo todo @ r) = map_option ((@) (todo_tokens todo)) (tokenize r)"
proof -
  have n: "\<And>i r. tokenize (show_int i @ 0x2C # r)
      = map_option (Cons (TNumber i)) (tokenize (0x2C # r))"
    by (rule tokenize_show_int) (simp add: is_digit_def)
  show ?thesis
    by (cases "tokenize r")
      (simp_all add: serialize_todo_def todo_tokens_def tokenize_punct
        tokenize_QuoteJSONString n tokenize_boolean del: tokenize.simps)
qed

lemma tokenize_join_comma:
  "tokenize (join_comma (map serialize_todo todos) @ r)
     = map_option ((@) (todos_tokens todos)) (tokenize r)"
proof (induction todos rule: todos_tokens.induct)
  case 1
  show ?case by (simp add: option.map_ident del: tokenize.simps)
next
  case (2 x)
  show ?case by (simp add: tokenize_serialize_todo del: tokenize.simps)
next
  case (3 x y ys)
  then show ?case
    by (cases "tokenize r")
      (simp_all add: tokenize_serialize_todo tokenize_punct del: tokenize.simps)
qed

lemma tokenize_JSON_stringify:
  "tokenize (JSON_stringify todos) = Some (LBracket # todos_tokens todos @ [RBracket])"
  using tokenize_join_comma [of todos "[0x5D]"]
  by (simp add: JSON_stringify_def tokenize_punct del: tokenize.simps(2))

lemma parse_todo_tokens: "parse_todo (todo_tokens todo @ ts) = Some (todo, ts)"
  by (simp add: parse_todo_def todo_tokens_def)

lemma parse_elements_tokens:
  "parse_elements (todos_tokens (x # xs) @ [RBracket]) = Some (x # xs)"
proof (induction xs arbitrary: x)
  case Nil
  show ?case
    by (subst parse_elements.simps) (simp add: parse_todo_tokens)
next
  case (Cons y ys)
  then show ?case
    by (subst parse_elements.simps) (simp add: parse_todo_tokens)
qed

lemma todos_tokens_first: "todos_tokens (x # xs) = LBrace # tl (todos_tokens (x # xs))"
  by (cases xs) (simp_all add: todo_tokens_def)

lemma parse_array_tokens:
  "parse_array (LBracket # todos_tokens todos @ [RBracket]) = Some todos"
proof (cases todos)
  case Nil
  then show ?thesis by simp
next
  case (Cons x xs)
  have "todos_tokens (x # xs) @ [RBracket] \<noteq> [RBracket]"
    by (subst todos_tokens_first) simp
  with Cons show ?thesis
    by (simp add: parse_elements_tokens del: todos_tokens.simps)
qed

lemma JSON_parse_stringify: "JSON_parse (JSON_stringify todos) = Inr todos"
  by (simp add: JSON_parse_def tokenize_JSON_stringify parse_array_tokens
      del: parse_array.simps)

lemma JSON_stringify_not_Nil: "JSON_stringify todos \<noteq> []"
  by (simp add: JSON_stringify_def)

text \<open>Evaluating the tokenizer and the parser on a given text.\<close>

lemmas JSON_eval =
  JSON_parse_def JSON_stringify_def serialize_todo_def QuoteJSONString_def quote_unit_def
  show_int_def show_nat.simps digit_def js_def scan_def is_ws_def is_digit_def
  is_high_surrogate_def is_low_surrogate_def scan_digits_def digit_value_def
  parse_todo_def item_def cons_unit_def parse_elements.simps simple_escape_def

subsection \<open>The escapes, by example\<close>

text \<open>
  Quoted: the letter a, a double quote, a backslash, a line feed, the code unit 1, a high
  surrogate on its own and a surrogate pair. Read up to the closing quote: the letter a,
  an escaped slash, the escape of the code unit \<open>0xE9\<close> in upper-case digits and an
  escaped tab.
\<close>

lemma QuoteJSONString_example:
  "QuoteJSONString [0x61, 0x22, 0x5C, 0x0A, 0x01, 0xD800, 0xD83D, 0xDE00]
     = [0x22, 0x61, 0x5C, 0x22, 0x5C, 0x5C, 0x5C, 0x6E, 0x5C, 0x75, 0x30, 0x30, 0x30, 0x31,
        0x5C, 0x75, 0x64, 0x38, 0x30, 0x30, 0xD83D, 0xDE00, 0x22]"
  by (simp add: QuoteJSONString_def quote_unit_def UnicodeEscape_def hex_digit_def
      is_high_surrogate_def is_low_surrogate_def)

lemma scan_string_example:
  "scan_string [0x61, 0x5C, 0x2F, 0x5C, 0x75, 0x30, 0x30, 0x45, 0x39, 0x5C, 0x74, 0x22, 0x7D]
     = Some ([0x61, 0x2F, 0xE9, 0x09], [0x7D])"
  by (simp add: simple_escape_def hex4_def hex_value_def cons_unit_def)

subsection \<open>Startup\<close>

text \<open>
  Claim C7: at startup the slot "todos" is read once; when the key is absent the initial
  collection is empty; when it is present its value is deserialized as the sequence of
  items, and a failure of the deserialization propagates.

  As stated the claim fails where the slot holds the empty string: the key is present,
  \<open>JSON_parse\<close> rejects the empty text, and the initializer returns the empty collection
  without calling it.
\<close>

theorem empty_slot_is_not_parsed:
  "[js ''todos'' \<mapsto> []] (js ''todos'') = Some [] \<and>
   JSON_parse [] = Inl SyntaxError \<and>
   initial_todos [js ''todos'' \<mapsto> []] = Inr [] \<and>
   fst (useState_initializer \<lparr>items = [js ''todos'' \<mapsto> []], accesses = []\<rparr>) = Inr []"
  by (simp add: initial_todos_def JSON_parse_def useState_initializer_def getItem_def)

text \<open>
  The initializer with its accesses on record returns what \<open>initial_todos\<close> returns on
  the contents of the storage; the effect writes what \<open>persist\<close> writes.
\<close>

lemma useState_initializer_result:
  "fst (useState_initializer localStorage) = initial_todos (items localStorage)"
  by (simp add: useState_initializer_def initial_todos_def getItem_def split: option.split)

lemma useEffect_persist_items:
  "items (useEffect_persist localStorage todos) = persist (items localStorage) todos"
  by (simp add: useEffect_persist_def setItem_def persist_def)

lemma reads_append: "reads (log @ log') = reads log @ reads log'"
  by (induction log rule: reads.induct) simp_all

lemma useEffect_persist_reads:
  "reads (accesses (useEffect_persist localStorage todos)) = reads (accesses localStorage)"
  by (simp add: useEffect_persist_def setItem_def reads_append)

text \<open>
  Claim C7, amended: at startup the slot "todos" is read exactly once; when the key is
  absent or its value is the empty string the initial collection is empty; when it is
  present with another value, the value is deserialized as the sequence of items, and a
  failure of the deserialization propagates.

  The initializer adds one call to the record, \<^verbatim>\<open>getItem\<close> of the key "todos", and leaves
  the contents of the storage as they are.
\<close>

theorem startup_read_spec:
  "accesses (snd (useState_initializer localStorage))
     = accesses localStorage @ [GetItem (js ''todos'')] \<and>
   reads (accesses (snd (useState_initializer localStorage)))
     = reads (accesses localStorage) @ [js ''todos''] \<and>
   items (snd (useState_initializer localStorage)) = items localStorage \<and>
   (items localStorage (js ''todos'') = None \<longrightarrow>
      fst (useState_initializer localStorage) = Inr []) \<and>
   (items localStorage (js ''todos'') = Some [] \<longrightarrow>
      fst (useState_initializer localStorage) = Inr []) \<and>
   (\<forall>text. items localStorage (js ''todos'') = Some text \<and> text \<noteq> [] \<longrightarrow>
      fst (useState_initializer localStorage) = JSON_parse text) \<and>
   (\<forall>text e. items localStorage (js ''todos'') = Some text \<and> text \<noteq> []
        \<and> JSON_parse text = Inl e \<longrightarrow>
      fst (useState_initializer localStorage) = Inl e)"
  by (simp add: useState_initializer_def getItem_def reads_append split: option.split)

theorem startup_read_spec_witness:
  \<open>useState_initializer \<lparr>items = Map.empty, accesses = []\<rparr>
     = (Inr [], \<lparr>items = Map.empty, accesses = [GetItem (js ''todos'')]\<rparr>) \<and>
   useState_initializer \<lparr>items = [js ''todos'' \<mapsto> []], accesses = []\<rparr>
     = (Inr [], \<lparr>items = [js ''todos'' \<mapsto> []], accesses = [GetItem (js ''todos'')]\<rparr>) \<and>
   useState_initializer
       \<lparr>items = [js ''todos'' \<mapsto> js ''[{"id":5,"text":"x","done":true}]''], accesses = []\<rparr>
     = (Inr [item 5 ''x'' True],
        \<lparr>items = [js ''todos'' \<mapsto> js ''[{"id":5,"text":"x","done":true}]''],
           accesses = [GetItem (js ''todos'')]\<rparr>) \<and>
   useState_initializer \<lparr>items = [js ''todos'' \<mapsto> js ''[{"id":5,''], accesses = []\<rparr>
     = (Inl SyntaxError,
        \<lparr>items = [js ''todos'' \<mapsto> js ''[{"id":5,''], accesses = [GetItem (js ''todos'')]\<rparr>) \<and>
   reads (accesses (snd (useState_initializer
       \<lparr>items = [js ''todos'' \<mapsto> js ''[{"id":5,''], accesses = []\<rparr>)))
     = [js ''todos'']\<close>
proof -
  let ?good = \<open>js ''[{"id":5,"text":"x","done":true}]''\<close>
  let ?bad = \<open>js ''[{"id":5,''\<close>
  let ?s0 = "\<lparr>items = Map.empty, accesses = []\<rparr>"
  let ?s1 = "\<lparr>items = [js ''todos'' \<mapsto> []], accesses = []\<rparr>"
  let ?s2 = "\<lparr>items = [js ''todos'' \<mapsto> ?good], accesses = []\<rparr>"
  let ?s3 = "\<lparr>items = [js ''todos'' \<mapsto> ?bad], accesses = []\<rparr>"
  have g: "?good \<noteq> []" and b: "?bad \<noteq> []"
    by (simp_all add: js_def)
  have pg: "JSON_parse ?good = Inr [item 5 ''x'' True]"
    by (simp add: JSON_eval)
  have pb: "JSON_parse ?bad = Inl SyntaxError"
    by (simp add: JSON_eval)
  have pair: "\<And>p r (s :: store) log. fst p = r \<Longrightarrow> items (snd p) = items s \<Longrightarrow>
      accesses (snd p) = accesses s @ log \<Longrightarrow> p = (r, s\<lparr>accesses := accesses s @ log\<rparr>)"
    by (auto simp: prod_eq_iff)
  note t0 = startup_read_spec [of ?s0]
  from t0 have "fst (useState_initializer ?s0) = Inr []"
    by simp
  with t0 have r0: "useState_initializer ?s0
      = (Inr [], \<lparr>items = Map.empty, accesses = [GetItem (js ''todos'')]\<rparr>)"
    using pair [of "useState_initializer ?s0" "Inr []" ?s0 "[GetItem (js ''todos'')]"]
    by simp
  note t1 = startup_read_spec [of ?s1]
  from t1 have "fst (useState_initializer ?s1) = Inr []"
    by simp
  with t1 have r1: "useState_initializer ?s1
      = (Inr [], \<lparr>items = [js ''todos'' \<mapsto> []], accesses = [GetItem (js ''todos'')]\<rparr>)"
    using pair [of "useState_initializer ?s1" "Inr []" ?s1 "[GetItem (js ''todos'')]"]
    by simp
  note t2 = startup_read_spec [of ?s2]
  have "items ?s2 (js ''todos'') = Some ?good \<and> ?good \<noteq> []"
    using g by simp
  with t2 have "fst (useState_initializer ?s2) = JSON_parse ?good"
    by blast
  with pg have "fst (useState_initializer ?s2) = Inr [item 5 ''x'' True]"
    by simp
  with t2 have r2: "useState_initializer ?s2
      = (Inr [item 5 ''x'' True],
         \<lparr>items = [js ''todos'' \<mapsto> ?good], accesses = [GetItem (js ''todos'')]\<rparr>)"
    using pair [of "useState_initializer ?s2" "Inr [item 5 ''x'' True]" ?s2
        "[GetItem (js ''todos'')]"]
    by simp
  note t3 = startup_read_spec [of ?s3]
  have "items ?s3 (js ''todos'') = Some ?bad \<and> ?bad \<noteq> [] \<and> JSON_parse ?bad = Inl SyntaxError"
    using b pb by simp
  with t3 have f3: "fst (useState_initializer ?s3) = Inl SyntaxError"
    by blast
  with t3 have r3: "useState_initializer ?s3
      = (Inl SyntaxError,
         \<lparr>items = [js ''todos'' \<mapsto> ?bad], accesses = [GetItem (js ''todos'')]\<rparr>)"
    using pair [of "useState_initializer ?s3" "Inl SyntaxError" ?s3 "[GetItem (js ''todos'')]"]
    by simp
  from t3 have r4: "reads (accesses (snd (useState_initializer ?s3))) = [js ''todos'']"
    by simp
  from r0 r1 r2 r3 r4 show ?thesis
    by (simp only: simp_thms)
qed

subsection \<open>Writing and reading back\<close>

text \<open>
  Claim C8: for every collection, the empty one included, serializing it to the persisted
  text and deserializing that text gives a collection equal to the original: the same
  items, with the same id, text and done flag, in the same order.

  The same holds through the storage: what the effect writes to the slot is what the
  initializer reads at the next startup.
\<close>

theorem persist_roundtrip:
  "JSON_parse (JSON_stringify todos) = Inr todos \<and>
   initial_todos (persist localStorage todos) = Inr todos"
  by (simp add: initial_todos_def persist_def JSON_stringify_not_Nil JSON_parse_stringify)

theorem persist_roundtrip_witness:
  \<open>JSON_stringify [] = js ''[]'' \<and>
   JSON_parse (js ''[]'') = Inr [] \<and>
   JSON_stringify [item 1 ''buy milk'' True, item (- 20) ''b'' False]
     = js ''[{"id":1,"text":"buy milk","done":true},{"id":-20,"text":"b","done":false}]'' \<and>
   JSON_parse (js ''[{"id":1,"text":"buy milk","done":true},{"id":-20,"text":"b","done":false}]'')
     = Inr [item 1 ''buy milk'' True, item (- 20) ''b'' False]\<close>
proof -
  let ?c = \<open>[item 1 ''buy milk'' True, item (- 20) ''b'' False]\<close>
  have s0: "JSON_stringify [] = js ''[]''"
    by (simp add: JSON_eval)
  have s1: \<open>JSON_stringify ?c
      = js ''[{"id":1,"text":"buy milk","done":true},{"id":-20,"text":"b","done":false}]''\<close>
    by (simp add: JSON_eval)
  from persist_roundtrip [of "[]"] have "JSON_parse (JSON_stringify []) = Inr []"
    by (rule conjunct1)
  then have p0: "JSON_parse (js ''[]'') = Inr []"
    by (simp only: s0)
  from persist_roundtrip [of ?c] have "JSON_parse (JSON_stringify ?c) = Inr ?c"
    by (rule conjunct1)
  then have p1: \<open>JSON_parse
      (js ''[{"id":1,"text":"buy milk","done":true},{"id":-20,"text":"b","done":false}]'')
      = Inr ?c\<close>
    by (simp only: s1)
  from s0 p0 s1 p1 show ?thesis
    by (simp only: simp_thms)
qed

end
